theory Spec2Isabelle
  imports Complex_Main "HOL-Library.Word"
begin

section \<open>Data model\<close>

text \<open>
  Python exceptions that the modelled functions can let escape. A function that may raise
  returns \<open>py_error + 'a\<close>, with \<open>Inl\<close> for the exception.
\<close>

datatype py_error =
  AssertionError | TimeoutError | CancelledError | UnicodeDecodeError | ValueError

text \<open>
  A content part is a \<open>TextPart\<close> or one of the other \<open>ContentPart\<close> classes of the message
  library; a non-text part is kept as its class name and an opaque payload.
\<close>

datatype content_part =
  is_TextPart: TextPart (part_text: string)
  | NonTextPart (class_name: string) (payload: string)

datatype role = User | Assistant | Tool

datatype message =
  Message (role: role) (content: "content_part list") (msg_tool_call_id: "string option")

text \<open>
  The output of a successful tool is a string, one content part or a sequence of parts
  (the three branches of the \<open>match\<close> in \<open>tool_ok_to_message_content\<close>).
\<close>

datatype tool_output =
  OutStr string
  | OutPart content_part
  | OutParts "content_part list"

datatype tool_ok = ToolOk (ok_output: tool_output) (ok_message: string) (ok_brief: string)

datatype tool_error = ToolError (err_output: string) (err_message: string) (err_brief: string)

datatype tool_return = Ok tool_ok | Error tool_error

datatype tool_result = ToolResult (tool_call_id: string) (result: tool_return)


section \<open>utils/message.py\<close>

definition system_message :: "string \<Rightarrow> content_part" where
  "system_message m = TextPart (''<system>'' @ m @ ''</system>'')"

text \<open>
  \<open>tool_ok_to_message_content\<close>: the optional message first, then the output; the sentinel is
  appended only when nothing was collected.
\<close>

definition tool_ok_to_message_content :: "tool_ok \<Rightarrow> content_part list" where
  "tool_ok_to_message_content r =
     (let content0 = (if ok_message r \<noteq> [] then [system_message (ok_message r)] else []);
          content1 = (case ok_output r of
                        OutStr t \<Rightarrow> (if t \<noteq> [] then content0 @ [TextPart t] else content0)
                      | OutPart p \<Rightarrow> content0 @ [p]
                      | OutParts ps \<Rightarrow> content0 @ ps)
      in if content1 = [] then content1 @ [system_message ''Tool output is empty.'']
         else content1)"

text \<open>
  The \<open>for part in content\<close> loop of \<open>tool_result_to_messages\<close>, with its two accumulators
  \<open>text_parts\<close> and \<open>non_text_parts\<close>.
\<close>

fun split_parts ::
  "content_part list \<Rightarrow> content_part list \<Rightarrow> content_part list
     \<Rightarrow> content_part list \<times> content_part list" where
  "split_parts [] text_parts non_text_parts = (text_parts, non_text_parts)"
| "split_parts (p # ps) text_parts non_text_parts =
     (if is_TextPart p then split_parts ps (text_parts @ [p]) non_text_parts
      else split_parts ps text_parts (non_text_parts @ [p]))"

definition non_text_notice :: string where
  "non_text_notice =
     ''Tool output contains non-text parts. Non-text parts are sent as a user message below.''"

definition tool_result_to_messages :: "tool_result \<Rightarrow> py_error + message list" where
  "tool_result_to_messages tr =
     (case result tr of
        Error e \<Rightarrow>
          if err_message e = [] then Inl AssertionError
          else
            let content0 = [system_message (err_message e)];
                content1 = (if err_output e \<noteq> [] then content0 @ [TextPart (err_output e)]
                            else content0)
            in Inr [Message Tool content1 (Some (tool_call_id tr))]
      | Ok r \<Rightarrow>
          (case split_parts (tool_ok_to_message_content r) [] [] of
             (text_parts, non_text_parts) \<Rightarrow>
               if non_text_parts = [] then
                 Inr [Message Tool text_parts (Some (tool_call_id tr))]
               else
                 Inr [Message Tool (text_parts @ [system_message non_text_notice])
                        (Some (tool_call_id tr)),
                      Message User non_text_parts None]))"


section \<open>tools/bash\<close>

text \<open>
  Python's \<open>str\<close> of an integer, as the f-strings of \<open>Bash.__call__\<close> format the exit code
  and the timeout.
\<close>

definition digit_char :: "nat \<Rightarrow> char" where
  "digit_char d =
     (if d = 0 then CHR ''0'' else if d = 1 then CHR ''1'' else if d = 2 then CHR ''2''
      else if d = 3 then CHR ''3'' else if d = 4 then CHR ''4'' else if d = 5 then CHR ''5''
      else if d = 6 then CHR ''6'' else if d = 7 then CHR ''7'' else if d = 8 then CHR ''8''
      else CHR ''9'')"

function str_nat :: "nat \<Rightarrow> string" where
  "str_nat n = (if n < 10 then [digit_char n] else str_nat (n div 10) @ [digit_char (n mod 10)])"
  by pat_completeness auto
termination
  by (relation "measure (\<lambda>n. n)") auto

declare str_nat.simps [simp del]

definition str_int :: "int \<Rightarrow> string" where
  "str_int i = (if i < 0 then CHR ''-'' # str_nat (nat (- i)) else str_nat (nat i))"

text \<open>
  The child process is the environment of the tool. What the coroutine sees of one run of
  it is described by the results of the \<open>readline()\<close> calls of the two readers, in the order
  in which the event loop delivered them, and by the way the waiting ended: both streams
  were read to their end and \<open>process.wait()\<close> gave an exit code, or \<open>wait_for\<close> raised
  \<open>TimeoutError\<close>, or the task was cancelled at one of the two \<open>await\<close>s. A \<open>readline()\<close>
  gives a line, the empty bytes at the end of the stream, or raises (\<open>ValueError\<close> for a
  line over the limit of the stream reader).
\<close>

datatype stream = Stdout | Stderr

type_synonym bytes = "8 word list"

datatype proc_ending = Exits int | TimesOut | Cancelled

datatype proc_state = Running | Killed | Exited int

record child_run =
  reads :: "(stream \<times> (py_error + bytes)) list"
  ending :: proc_ending

text \<open>
  The two callbacks of \<open>Bash.__call__\<close>; \<open>line.decode()\<close> is a parameter, \<open>None\<close> where it
  raises. Both append to the one \<open>output\<close> list of the call.
\<close>

definition stdout_cb ::
  "(bytes \<Rightarrow> string option) \<Rightarrow> bytes \<Rightarrow> string list \<Rightarrow> py_error + string list" where
  "stdout_cb decode line output =
     (case decode line of
        None \<Rightarrow> Inl UnicodeDecodeError
      | Some line_str \<Rightarrow> Inr (output @ [line_str]))"

definition stderr_cb ::
  "(bytes \<Rightarrow> string option) \<Rightarrow> bytes \<Rightarrow> string list \<Rightarrow> py_error + string list" where
  "stderr_cb decode line output =
     (case decode line of
        None \<Rightarrow> Inl UnicodeDecodeError
      | Some line_str \<Rightarrow> Inr (output @ [line_str]))"

text \<open>
  The two \<open>_read_stream\<close> loops under \<open>gather\<close>: a non-empty line goes to the callback of its
  stream, an empty one ends the loop of its stream (\<open>ended\<close> holds the streams whose loop
  is over), and an exception of \<open>readline()\<close> or of a callback ends the reading.
\<close>

fun read_stream ::
  "(bytes \<Rightarrow> string list \<Rightarrow> py_error + string list)
     \<Rightarrow> (bytes \<Rightarrow> string list \<Rightarrow> py_error + string list)
     \<Rightarrow> (stream \<times> (py_error + bytes)) list \<Rightarrow> stream list \<Rightarrow> string list
     \<Rightarrow> py_error option \<times> string list" where
  "read_stream out_cb err_cb [] ended output = (None, output)"
| "read_stream out_cb err_cb ((s, Inl e) # rest) ended output =
     (if s \<in> set ended then read_stream out_cb err_cb rest ended output
      else (Some e, output))"
| "read_stream out_cb err_cb ((s, Inr line) # rest) ended output =
     (if s \<in> set ended then read_stream out_cb err_cb rest ended output
      else if line \<noteq> [] then
        (case (if s = Stdout then out_cb else err_cb) line output of
           Inl e \<Rightarrow> (Some e, output)
         | Inr output' \<Rightarrow> read_stream out_cb err_cb rest ended output')
      else read_stream out_cb err_cb rest (s # ended) output)"

text \<open>
  \<open>_stream_subprocess\<close>: the body of the \<open>try\<close>, then the \<open>except TimeoutError\<close> clause, which
  kills the process and raises again; any other exception passes the clause by. The result
  is the exit code or the exception, the state of the process, and the \<open>output\<close> list.
  The \<open>timeout\<close> goes to \<open>wait_for\<close>: what it does to the waiting is part of the run
  (see \<open>run_of\<close> below).
\<close>

definition stream_subprocess ::
  "string \<Rightarrow> (bytes \<Rightarrow> string list \<Rightarrow> py_error + string list)
     \<Rightarrow> (bytes \<Rightarrow> string list \<Rightarrow> py_error + string list)
     \<Rightarrow> int \<Rightarrow> child_run \<Rightarrow> string list
     \<Rightarrow> (py_error + int) \<times> proc_state \<times> string list" where
  "stream_subprocess command out_cb err_cb timeout run output =
     (let (raised, output') = read_stream out_cb err_cb (reads run) [] output;
          body = (case raised of
                    Some e \<Rightarrow> (Inl e, Running)
                  | None \<Rightarrow>
                      (case ending run of
                         Exits exitcode \<Rightarrow> (Inr exitcode, Exited exitcode)
                       | TimesOut \<Rightarrow> (Inl TimeoutError, Running)
                       | Cancelled \<Rightarrow> (Inl CancelledError, Running)))
      in case body of
           (Inl e, process) \<Rightarrow>
             if e = TimeoutError then (Inl e, Killed, output') else (Inl e, process, output')
         | (Inr exitcode, process) \<Rightarrow> (Inr exitcode, process, output'))"

text \<open>
  \<open>Bash.__call__\<close>. The timeout is an integer, as the signature declares it
  (\<open>timeout: int = 60\<close>); a number that is not an integer, which the declared schema also
  admits, is not covered.
\<close>

definition Bash_call ::
  "(bytes \<Rightarrow> string option) \<Rightarrow> string \<Rightarrow> int \<Rightarrow> child_run
     \<Rightarrow> (py_error + tool_return) \<times> proc_state" where
  "Bash_call decode command timeout run =
     (case stream_subprocess command (stdout_cb decode) (stderr_cb decode) timeout run [] of
        (Inr exitcode, process, output) \<Rightarrow>
          (let output_str = concat output
           in if exitcode = 0 then
                (Inr (Ok (ToolOk (OutStr output_str) ''Command executed successfully.'' [])),
                 process)
              else
                (Inr (Error (ToolError output_str
                               (''Command failed with exit code: '' @ str_int exitcode)
                               (''Failed with exit code: '' @ str_int exitcode))),
                 process))
      | (Inl e, process, output) \<Rightarrow>
          if e = TimeoutError then
            (let output_str = concat output
             in (Inr (Error (ToolError output_str
                               (''Command killed by timeout ('' @ str_int timeout @ ''s)'')
                               (''Killed by timeout ('' @ str_int timeout @ ''s)''))),
                 process))
          else (Inl e, process))"

text \<open>
  \<open>line.decode()\<close> with its defaults is the strict UTF-8 codec: it raises on bytes that are not
  well-formed UTF-8 (a stray continuation or start byte, a truncated or overlong sequence,
  a surrogate, a code point over U+10FFFF). A decoded string is kept as the bytes of its
  UTF-8 form.
\<close>

definition continuation :: "8 word \<Rightarrow> bool" where
  "continuation b = (0x80 \<le> b \<and> b \<le> 0xBF)"

fun utf8_valid :: "bytes \<Rightarrow> bool" where
  "utf8_valid [] = True"
| "utf8_valid (b # bs) =
     (if b < 0x80 then utf8_valid bs
      else if 0xC2 \<le> b \<and> b \<le> 0xDF then
        (case bs of
           c1 # rest \<Rightarrow> continuation c1 \<and> utf8_valid rest
         | _ \<Rightarrow> False)
      else if 0xE0 \<le> b \<and> b \<le> 0xEF then
        (case bs of
           c1 # c2 # rest \<Rightarrow>
             continuation c1 \<and> continuation c2
             \<and> (if b = 0xE0 then 0xA0 \<le> c1 else True)
             \<and> (if b = 0xED then c1 \<le> 0x9F else True)
             \<and> utf8_valid rest
         | _ \<Rightarrow> False)
      else if 0xF0 \<le> b \<and> b \<le> 0xF4 then
        (case bs of
           c1 # c2 # c3 # rest \<Rightarrow>
             continuation c1 \<and> continuation c2 \<and> continuation c3
             \<and> (if b = 0xF0 then 0x90 \<le> c1 else True)
             \<and> (if b = 0xF4 then c1 \<le> 0x8F else True)
             \<and> utf8_valid rest
         | _ \<Rightarrow> False)
      else False)"

definition utf8_decode :: "bytes \<Rightarrow> string option" where
  "utf8_decode bs = (if utf8_valid bs then Some (map (\<lambda>b. char_of (unat b)) bs) else None)"

text \<open>
  The child in time, and what the event loop makes of it. \<open>arrivals\<close> are the results that
  \<open>readline()\<close> has ready, each with the time (in milliseconds after the start) at which it
  is ready, in the order of these times; the child exits by itself at \<open>exit_time\<close> with
  \<open>exit_code\<close>; the task may be cancelled at \<open>cancel_time\<close>. Under
  \<open>wait_for(gather(...), timeout)\<close> the readers get the results that are ready before the
  deadline of \<open>timeout\<close> seconds (and before a cancellation); if both streams have ended by
  then, \<open>process.wait()\<close> follows, which no deadline bounds, and gives the exit code unless
  the task is cancelled before the child exits; otherwise the waiting ends with the
  cancellation or with \<open>TimeoutError\<close> at the deadline.
\<close>

type_synonym time = int

record timed_run =
  arrivals :: "(time \<times> stream \<times> (py_error + bytes)) list"
  exit_time :: time
  exit_code :: int
  cancel_time :: "time option"

definition deadline :: "int \<Rightarrow> time" where
  "deadline timeout = 1000 * timeout"

fun delivered ::
  "time \<Rightarrow> (time \<times> stream \<times> (py_error + bytes)) list \<Rightarrow> (stream \<times> (py_error + bytes)) list" where
  "delivered limit [] = []"
| "delivered limit ((t, ready) # rest) =
     (if t < limit then ready # delivered limit rest else [])"

definition streams_ended :: "(stream \<times> (py_error + bytes)) list \<Rightarrow> bool" where
  "streams_ended rs = ((Stdout, Inr []) \<in> set rs \<and> (Stderr, Inr []) \<in> set rs)"

definition run_of :: "int \<Rightarrow> timed_run \<Rightarrow> child_run" where
  "run_of timeout tr =
     (let limit = (case cancel_time tr of
                     None \<Rightarrow> deadline timeout
                   | Some c \<Rightarrow> min c (deadline timeout));
          rs = delivered limit (arrivals tr)
      in \<lparr>reads = rs,
          ending =
            (if streams_ended rs then
               (case cancel_time tr of
                  None \<Rightarrow> Exits (exit_code tr)
                | Some c \<Rightarrow> if c < exit_time tr then Cancelled else Exits (exit_code tr))
             else
               (case cancel_time tr of
                  None \<Rightarrow> TimesOut
                | Some c \<Rightarrow> if c < deadline timeout then Cancelled else TimesOut))\<rparr>)"

text \<open>
  Two notions for stating what a run of the child gives. In a run as the event loop can
  produce it, the empty line of a stream is the last result of that stream (\<open>eof_last\<close>).
  The accumulated text is the text of the non-empty lines in the order of their arrival.
\<close>

fun eof_last :: "(stream \<times> (py_error + bytes)) list \<Rightarrow> bool" where
  "eof_last [] = True"
| "eof_last ((s, r) # rest) = ((if r = Inr [] then s \<notin> fst ` set rest else True) \<and> eof_last rest)"

definition accumulated_text ::
  "(bytes \<Rightarrow> string option) \<Rightarrow> (stream \<times> (py_error + bytes)) list \<Rightarrow> string" where
  "accumulated_text decode rs =
     concat (map (\<lambda>(s, r). case r of
                              Inl e \<Rightarrow> []
                            | Inr line \<Rightarrow>
                                if line = [] then []
                                else (case decode line of Some t \<Rightarrow> t | None \<Rightarrow> [])) rs)"

definition all_decodable ::
  "(bytes \<Rightarrow> string option) \<Rightarrow> (stream \<times> (py_error + bytes)) list \<Rightarrow> bool" where
  "all_decodable decode rs =
     list_all (\<lambda>(s, r). case r of
                          Inl e \<Rightarrow> False
                        | Inr line \<Rightarrow> line = [] \<or> decode line \<noteq> None) rs"

text \<open>
  The declared parameter schema of the tool, as the JSON value it is. Numbers are integers
  here; the description of \<open>timeout\<close> keeps the indentation that follows the line
  continuation inside the literal.
\<close>

datatype json =
  JNull
  | JBool bool
  | JNumber int
  | JString string
  | JArray "json list"
  | JObject "(string \<times> json) list"

definition Bash_parameters :: json where
  "Bash_parameters =
     JObject
       [(''type'', JString ''object''),
        (''properties'',
         JObject
           [(''command'',
             JObject
               [(''type'', JString ''string''),
                (''description'', JString ''The bash command to execute.'')]),
            (''timeout'',
             JObject
               [(''type'', JString ''number''),
                (''description'',
                 JString (''The timeout in seconds for the command to execute. ''
                          @ replicate 20 CHR '' ''
                          @ ''If the command takes longer than this, it will be killed.'')),
                (''default'', JNumber 60)])]),
        (''required'', JArray [JString ''command''])]"

definition Bash_default_timeout :: int where
  "Bash_default_timeout = 60"

text \<open>
  Validation of the arguments against a schema is done by the tool framework before the
  tool body runs; it is outside this repository. The part of JSON Schema validation that
  the keywords \<open>type\<close>, \<open>maximum\<close>, \<open>minimum\<close>, \<open>properties\<close> and \<open>required\<close> need is modelled
  here.
\<close>

fun json_get :: "string \<Rightarrow> json \<Rightarrow> json option" where
  "json_get k (JObject kvs) = map_of kvs k"
| "json_get k _ = None"

fun has_json_type :: "json \<Rightarrow> json \<Rightarrow> bool" where
  "has_json_type (JString t) v =
     (if t = ''string'' then (case v of JString _ \<Rightarrow> True | _ \<Rightarrow> False)
      else if t = ''number'' \<or> t = ''integer'' then (case v of JNumber _ \<Rightarrow> True | _ \<Rightarrow> False)
      else if t = ''boolean'' then (case v of JBool _ \<Rightarrow> True | _ \<Rightarrow> False)
      else if t = ''array'' then (case v of JArray _ \<Rightarrow> True | _ \<Rightarrow> False)
      else if t = ''object'' then (case v of JObject _ \<Rightarrow> True | _ \<Rightarrow> False)
      else if t = ''null'' then (case v of JNull \<Rightarrow> True | _ \<Rightarrow> False)
      else False)"
| "has_json_type _ v = True"

definition within_bounds :: "json \<Rightarrow> json \<Rightarrow> bool" where
  "within_bounds schema v =
     (case v of
        JNumber x \<Rightarrow>
          (case json_get ''maximum'' schema of Some (JNumber m) \<Rightarrow> x \<le> m | _ \<Rightarrow> True)
          \<and> (case json_get ''minimum'' schema of Some (JNumber m) \<Rightarrow> m \<le> x | _ \<Rightarrow> True)
      | _ \<Rightarrow> True)"

definition property_accepts :: "json \<Rightarrow> json \<Rightarrow> bool" where
  "property_accepts schema v =
     ((case json_get ''type'' schema of Some t \<Rightarrow> has_json_type t v | None \<Rightarrow> True)
      \<and> within_bounds schema v)"

definition schema_accepts :: "json \<Rightarrow> (string \<times> json) list \<Rightarrow> bool" where
  "schema_accepts schema arguments =
     ((case json_get ''required'' schema of
         Some (JArray ks) \<Rightarrow> list_all (\<lambda>k. k \<in> JString ` fst ` set arguments) ks
       | _ \<Rightarrow> True)
      \<and> (case json_get ''properties'' schema of
           Some props \<Rightarrow>
             list_all
               (\<lambda>(k, v). case json_get k props of
                           Some s \<Rightarrow> property_accepts s v
                         | None \<Rightarrow> True)
               arguments
         | None \<Rightarrow> True))"

text \<open>
  The timeout with which the body runs: the argument if one is given, the default of the
  signature otherwise.
\<close>

definition timeout_argument :: "(string \<times> json) list \<Rightarrow> int" where
  "timeout_argument arguments =
     (case map_of arguments ''timeout'' of
        Some (JNumber t) \<Rightarrow> t
      | _ \<Rightarrow> Bash_default_timeout)"


section \<open>event.py and ui/shell: the visualizer\<close>

datatype tool_call = ToolCall (call_id: string) (call_name: string) (call_arguments: string)

datatype tool_call_part = ToolCallPart (arguments_part: string)

text \<open>
  The event union of \<open>event.py\<close>. The usage percentage is a float in the source; it is only
  handed on to the view.
\<close>

datatype event =
  RunBegin
  | RunEnd
  | is_StepBegin: StepBegin int
  | StepInterrupted
  | ContextUsageUpdate real
  | ContentEvent content_part
  | ToolCallEvent tool_call
  | ToolCallPartEvent tool_call_part
  | ToolResultEvent tool_result

text \<open>
  The calls that \<open>_visualize\<close> makes on the step view (\<open>StepLiveView\<close>), recorded in order.
  The view itself is presentation code outside the modelled files: its methods are taken to
  return normally.
\<close>

datatype view_op =
  StepOpen
  | AppendText string
  | AppendToolCall tool_call
  | AppendToolCallPart tool_call_part
  | AppendToolResult tool_result
  | UpdateContextUsage real
  | Interrupt
  | Finish

text \<open>
  How a run of the coroutine over the events of the queue ends: it returns, it raises, or it
  is suspended in \<open>event_queue.get()\<close> on an empty queue.
\<close>

datatype outcome = Returned | Raised py_error | Waiting

text \<open>
  The \<open>match\<close> of the step loop: the view call for an event that a case other than the last
  takes, \<open>None\<close> for the last case (\<open>break\<close>).
\<close>

fun render :: "event \<Rightarrow> view_op option" where
  "render (ContentEvent (TextPart t)) = Some (AppendText t)"
| "render (ContentEvent (NonTextPart c p)) = Some (AppendText (''['' @ c @ '']''))"
| "render (ToolCallEvent tc) = Some (AppendToolCall tc)"
| "render (ToolCallPartEvent tcp) = Some (AppendToolCallPart tcp)"
| "render (ToolResultEvent tr) = Some (AppendToolResult tr)"
| "render (ContextUsageUpdate usage) = Some (UpdateContextUsage usage)"
| "render _ = None"

text \<open>
  The inner \<open>while True\<close>: \<open>event\<close> is the event in hand, \<open>queue\<close> what \<open>get()\<close> will
  give next. The result is the event that left the loop (\<open>None\<close> when \<open>get()\<close> found the queue
  empty), the rest of the queue and the view calls made.
\<close>

fun step_loop ::
  "event \<Rightarrow> event list \<Rightarrow> view_op list \<Rightarrow> event option \<times> event list \<times> view_op list" where
  "step_loop event [] ops =
     (case render event of
        Some op \<Rightarrow> (None, [], ops @ [op])
      | None \<Rightarrow> (Some event, [], ops))"
| "step_loop event (next_event # queue) ops =
     (case render event of
        Some op \<Rightarrow> step_loop next_event queue (ops @ [op])
      | None \<Rightarrow> (Some event, next_event # queue, ops))"

lemma step_loop_queue_length:
  "step_loop event queue ops = (left, queue', ops') \<Longrightarrow> length queue' \<le> length queue"
  by (induction event queue ops rule: step_loop.induct) (auto split: option.splits)

text \<open>
  The outer \<open>while True\<close>: one event is taken for the new step, the step loop runs inside the
  step view, the view is interrupted or finished, and the event that ended the step decides:
  \<open>StepInterrupted\<close> ends the loop, then the assertion admits \<open>StepBegin\<close> (next step) and
  \<open>RunEnd\<close> (end) only.
\<close>

function visualize_loop :: "event list \<Rightarrow> view_op list \<Rightarrow> outcome \<times> view_op list" where
  "visualize_loop [] ops = (Waiting, ops)"
| "visualize_loop (event # queue) ops =
     (case step_loop event queue (ops @ [StepOpen]) of
        (None, queue', ops') \<Rightarrow> (Waiting, ops')
      | (Some left, queue', ops') \<Rightarrow>
          if left = StepInterrupted then (Returned, ops' @ [Interrupt])
          else if \<not> (is_StepBegin left \<or> left = RunEnd) then
            (Raised AssertionError, ops' @ [Finish])
          else if is_StepBegin left then visualize_loop queue' (ops' @ [Finish])
          else (Returned, ops' @ [Finish]))"
  by pat_completeness auto
termination
  apply (relation "measure (\<lambda>(queue, ops). length queue)")
   apply simp
  apply (auto dest: step_loop_queue_length [OF sym])
  done

text \<open>
  \<open>_visualize\<close>: the two leading assertions on the first two events, then the loop.
\<close>

definition visualize :: "event list \<Rightarrow> outcome \<times> view_op list" where
  "visualize queue =
     (case queue of
        [] \<Rightarrow> (Waiting, [])
      | first # queue1 \<Rightarrow>
          if first \<noteq> RunBegin then (Raised AssertionError, [])
          else
            (case queue1 of
               [] \<Rightarrow> (Waiting, [])
             | second # queue2 \<Rightarrow>
                 if \<not> is_StepBegin second then (Raised AssertionError, [])
                 else visualize_loop queue2 []))"

text \<open>
  The event sequence of a run as the protocol gives it: \<open>RunBegin\<close>, a \<open>StepBegin\<close>, then
  content, tool-call, tool-result and usage events and further \<open>StepBegin\<close>s, and one terminal
  event, \<open>StepInterrupted\<close> or \<open>RunEnd\<close>, last.
\<close>

fun is_step_event :: "event \<Rightarrow> bool" where
  "is_step_event (ContentEvent p) = True"
| "is_step_event (ToolCallEvent tc) = True"
| "is_step_event (ToolCallPartEvent tcp) = True"
| "is_step_event (ToolResultEvent tr) = True"
| "is_step_event (ContextUsageUpdate usage) = True"
| "is_step_event _ = False"

fun run_protocol :: "event list \<Rightarrow> bool" where
  "run_protocol (RunBegin # StepBegin n # rest) =
     (rest \<noteq> []
      \<and> list_all (\<lambda>e. is_StepBegin e \<or> is_step_event e) (butlast rest)
      \<and> (last rest = StepInterrupted \<or> last rest = RunEnd))"
| "run_protocol _ = False"


section \<open>The visualizer\<close>

lemma render_None_iff: "render e = None \<longleftrightarrow> \<not> is_step_event e"
  by (induction e rule: render.induct) simp_all

lemma step_loop_leaves_at_control_event:
  assumes "list_all (\<lambda>e. is_StepBegin e \<or> is_step_event e) (butlast (event # queue))"
    and "last (event # queue) = StepInterrupted \<or> last (event # queue) = RunEnd"
  shows "\<exists>left queue' ops'.
           step_loop event queue ops = (Some left, queue', ops')
           \<and> (left = StepInterrupted \<or> left = RunEnd
               \<or> (is_StepBegin left \<and> queue' \<noteq> []
                   \<and> list_all (\<lambda>e. is_StepBegin e \<or> is_step_event e) (butlast queue')
                   \<and> (last queue' = StepInterrupted \<or> last queue' = RunEnd)))"
  using assms
proof (induction event queue ops rule: step_loop.induct)
  case (1 event ops)
  then show ?case by (auto simp: render_None_iff split: option.splits)
next
  case (2 event next_event queue ops)
  show ?case
  proof (cases "render event")
    case None
    then have "\<not> is_step_event event" by (simp add: render_None_iff)
    with "2.prems" have "is_StepBegin event" by simp
    with None "2.prems" show ?thesis by simp
  next
    case (Some op)
    with "2.IH" [OF Some] "2.prems" show ?thesis by simp
  qed
qed

lemma visualize_loop_protocol:
  assumes "queue \<noteq> []"
    and "list_all (\<lambda>e. is_StepBegin e \<or> is_step_event e) (butlast queue)"
    and "last queue = StepInterrupted \<or> last queue = RunEnd"
  shows "fst (visualize_loop queue ops) = Returned"
  using assms
proof (induction "length queue" arbitrary: queue ops rule: less_induct)
  case less
  from less.prems(1) obtain event rest where queue: "queue = event # rest"
    by (cases queue) auto
  from step_loop_leaves_at_control_event [of event rest "ops @ [StepOpen]"] less.prems queue
  obtain left queue' ops' where
    sl: "step_loop event rest (ops @ [StepOpen]) = (Some left, queue', ops')" and
    left: "left = StepInterrupted \<or> left = RunEnd
           \<or> (is_StepBegin left \<and> queue' \<noteq> []
               \<and> list_all (\<lambda>e. is_StepBegin e \<or> is_step_event e) (butlast queue')
               \<and> (last queue' = StepInterrupted \<or> last queue' = RunEnd))"
    by auto
  from sl have "length queue' \<le> length rest" by (rule step_loop_queue_length)
  with queue have shorter: "length queue' < length queue" by simp
  from left consider "left = StepInterrupted" | "left = RunEnd"
    | "is_StepBegin left" "queue' \<noteq> []"
      "list_all (\<lambda>e. is_StepBegin e \<or> is_step_event e) (butlast queue')"
      "last queue' = StepInterrupted \<or> last queue' = RunEnd"
    by auto
  then show ?case
  proof cases
    case 1
    with queue sl show ?thesis by simp
  next
    case 2
    with queue sl show ?thesis by simp
  next
    case 3
    from less.hyps [OF shorter 3(2,3,4), of "ops' @ [Finish]"] 3(1) queue sl
    show ?thesis by auto
  qed
qed

lemma visualize_returns_on_protocol:
  assumes "run_protocol events"
  shows "fst (visualize events) = Returned"
proof -
  from assms obtain n rest where events: "events = RunBegin # StepBegin n # rest"
    by (induction events rule: run_protocol.induct) simp_all
  with assms have "rest \<noteq> []"
    and "list_all (\<lambda>e. is_StepBegin e \<or> is_step_event e) (butlast rest)"
    and "last rest = StepInterrupted \<or> last rest = RunEnd"
    by simp_all
  then have "fst (visualize_loop rest []) = Returned"
    by (rule visualize_loop_protocol)
  with events show ?thesis by (simp add: visualize_def)
qed

lemma step_loop_left:
  "step_loop event queue ops = (Some left, queue', ops') \<Longrightarrow>
     render left = None \<and> left \<in> set (event # queue) \<and> set queue' \<subseteq> set queue"
  by (induction event queue ops rule: step_loop.induct) (auto split: option.splits)

lemma render_None_cases:
  "render e = None \<Longrightarrow>
     e = RunBegin \<or> e = RunEnd \<or> is_StepBegin e \<or> e = StepInterrupted"
  by (induction e rule: render.induct) simp_all

lemma visualize_loop_raises_only_on_RunBegin:
  "RunBegin \<notin> set queue \<Longrightarrow> fst (visualize_loop queue ops) \<noteq> Raised x"
proof (induction "length queue" arbitrary: queue ops rule: less_induct)
  case less
  show ?case
  proof (cases queue)
    case Nil
    then show ?thesis by simp
  next
    case (Cons event rest)
    obtain left_opt queue' ops' where
      sl: "step_loop event rest (ops @ [StepOpen]) = (left_opt, queue', ops')"
      by (cases "step_loop event rest (ops @ [StepOpen])") auto
    show ?thesis
    proof (cases left_opt)
      case None
      with sl Cons show ?thesis by simp
    next
      case (Some left)
      with sl step_loop_left [of event rest "ops @ [StepOpen]" left queue' ops']
      have left: "render left = None" "left \<in> set (event # rest)" "set queue' \<subseteq> set rest"
        by simp_all
      from left(2) less.prems Cons have "left \<noteq> RunBegin" by auto
      with render_None_cases [OF left(1)]
      have kinds: "left = RunEnd \<or> is_StepBegin left \<or> left = StepInterrupted" by simp
      from sl Some have "length queue' \<le> length rest"
        by (auto dest: step_loop_queue_length)
      with Cons have shorter: "length queue' < length queue" by simp
      from left(3) less.prems Cons have "RunBegin \<notin> set queue'" by auto
      from less.hyps [OF shorter this, of "ops' @ [Finish]"] kinds sl Some Cons
      show ?thesis by auto
    qed
  qed
qed

text \<open>
  Where the visualizer does raise: after the two leading events, the only event that makes
  it raise is a \<open>RunBegin\<close>.
\<close>

lemma visualize_raises_only_on_RunBegin:
  "RunBegin \<notin> set rest \<Longrightarrow> fst (visualize (RunBegin # StepBegin n # rest)) \<noteq> Raised x"
  by (simp add: visualize_def visualize_loop_raises_only_on_RunBegin)

text \<open>
  C1. The visualizer does raise, against its docstring: an event that no case of the step
  loop renders ends the step, and the assertion after the step admits \<open>StepBegin\<close> and
  \<open>RunEnd\<close> only, so a \<open>RunBegin\<close> in the middle of a run is not ignored, it makes
  \<open>_visualize\<close> raise \<open>AssertionError\<close>; so does a first event other than \<open>RunBegin\<close> and a
  second other than \<open>StepBegin\<close>.
\<close>

theorem visualize_raises_assertion_error:
  "visualize [RunBegin, StepBegin 1, RunBegin] = (Raised AssertionError, [StepOpen, Finish])
   \<and> visualize [RunBegin, StepBegin 1, ContentEvent (TextPart ''hi''), RunBegin, RunEnd] =
       (Raised AssertionError, [StepOpen, AppendText ''hi'', Finish])
   \<and> visualize [StepBegin 1, RunEnd] = (Raised AssertionError, [])
   \<and> visualize [RunBegin, RunEnd] = (Raised AssertionError, [])"
  by (simp add: visualize_def)


section \<open>The subprocess tool\<close>

lemma read_stream_accumulates:
  assumes "eof_last rs"
    and "all_decodable decode rs"
    and "set ended \<inter> fst ` set rs = {}"
  shows "\<exists>out'. read_stream (stdout_cb decode) (stderr_cb decode) rs ended out =
             (None, out') \<and> concat out' = concat out @ accumulated_text decode rs"
  using assms
proof (induction rs arbitrary: ended out)
  case Nil
  then show ?case by (simp add: accumulated_text_def)
next
  case (Cons r rs)
  from Cons.prems(2) obtain s line where r: "r = (s, Inr line)"
    and line: "line = [] \<or> decode line \<noteq> None"
    by (cases r) (auto simp: all_decodable_def split: sum.splits)
  from Cons.prems r have notin: "s \<notin> set ended" by auto
  from Cons.prems r have tail: "eof_last rs" "all_decodable decode rs"
    "set ended \<inter> fst ` set rs = {}"
    by (auto simp: all_decodable_def)
  show ?case
  proof (cases "line = []")
    case True
    with Cons.prems r have "s \<notin> fst ` set rs" by simp
    with tail have "set (s # ended) \<inter> fst ` set rs = {}" by auto
    from Cons.IH [OF tail(1,2) this, of out] True r notin
    show ?thesis by (simp add: accumulated_text_def)
  next
    case False
    with line obtain t where t: "decode line = Some t" by auto
    from Cons.IH [OF tail, of "out @ [t]"] False r notin t
    show ?thesis
      by (cases s) (simp_all add: accumulated_text_def stdout_cb_def stderr_cb_def)
  qed
qed

text \<open>
  The two paths of the tool, for a run in which every \<open>readline()\<close> returns and every line
  decodes: on \<open>TimeoutError\<close> the child is killed and the Error carries the two strings
  formatted with the timeout and the accumulated text; on an exit code \<open>n\<close> the tool returns
  Ok for \<open>n = 0\<close> and the Error formatted with \<open>n\<close> otherwise, with the accumulated text.
\<close>

lemma timeout_path:
  assumes "ending run = TimesOut"
    and "eof_last (reads run)"
    and "all_decodable decode (reads run)"
  shows "Bash_call decode command T run =
           (Inr (Error (ToolError (accumulated_text decode (reads run))
                          (''Command killed by timeout ('' @ str_int T @ ''s)'')
                          (''Killed by timeout ('' @ str_int T @ ''s)''))),
            Killed)"
proof -
  from read_stream_accumulates [OF assms(2,3), of "[]" "[]"]
  obtain output' where
    "read_stream (stdout_cb decode) (stderr_cb decode) (reads run) [] [] = (None, output')"
    and "concat output' = accumulated_text decode (reads run)"
    by auto
  with assms(1) show ?thesis
    by (simp add: Bash_call_def stream_subprocess_def)
qed

lemma exit_path:
  assumes "ending run = Exits n"
    and "eof_last (reads run)"
    and "all_decodable decode (reads run)"
  shows "Bash_call decode command T run =
           (if n = 0 then
              Inr (Ok (ToolOk (OutStr (accumulated_text decode (reads run)))
                         ''Command executed successfully.'' []))
            else
              Inr (Error (ToolError (accumulated_text decode (reads run))
                            (''Command failed with exit code: '' @ str_int n)
                            (''Failed with exit code: '' @ str_int n))),
            Exited n)"
proof -
  from read_stream_accumulates [OF assms(2,3), of "[]" "[]"]
  obtain output' where
    "read_stream (stdout_cb decode) (stderr_cb decode) (reads run) [] [] = (None, output')"
    and "concat output' = accumulated_text decode (reads run)"
    by auto
  with assms(1) show ?thesis
    by (simp add: Bash_call_def stream_subprocess_def)
qed

text \<open>
  The two examples of the tests of the tool: \<open>echo hi\<close> with a timeout of 5, and \<open>sleep 5\<close>
  with a timeout of 1, whose streams stay open until it exits.
\<close>

lemma echo_hi_example:
  "Bash_call utf8_decode ''echo hi'' 5
     (run_of 5 \<lparr>arrivals = [(3, Stdout, Inr [104, 105, 10]), (4, Stdout, Inr []),
                             (4, Stderr, Inr [])],
               exit_time = 4, exit_code = 0, cancel_time = None\<rparr>) =
     (Inr (Ok (ToolOk (OutStr [CHR ''h'', CHR ''i'', CHR 0x0A])
                 ''Command executed successfully.'' [])),
      Exited 0)"
  by code_simp

lemma sleep_5_example:
  "Bash_call utf8_decode ''sleep 5'' 1
     (run_of 1 \<lparr>arrivals = [(5000, Stdout, Inr []), (5000, Stderr, Inr [])],
               exit_time = 5000, exit_code = 0, cancel_time = None\<rparr>) =
     (Inr (Error (ToolError [] ''Command killed by timeout (1s)'' ''Killed by timeout (1s)'')),
      Killed)"
  by code_simp

text \<open>
  C2. When the task is cancelled while the child runs, \<open>CancelledError\<close> passes the
  \<open>except TimeoutError\<close> clause by: the exception leaves the tool and the child is still
  running, not killed. On the timeout path the same clause does kill the child.
\<close>

theorem cancelled_call_leaves_child_running:
  "Bash_call decode ''sleep 100'' 60 \<lparr>reads = [], ending = Cancelled\<rparr> =
     (Inl CancelledError, Running)
   \<and> snd (Bash_call decode ''sleep 100'' 60 \<lparr>reads = [], ending = TimesOut\<rparr>) = Killed"
  by (simp add: Bash_call_def stream_subprocess_def)

text \<open>
  C3. The deadline bounds the reading of the two streams only; \<open>process.wait()\<close> is awaited
  outside \<open>wait_for\<close>. A command that closes its output streams at once and then runs for
  5 seconds, under a timeout of 1 second, runs longer than the timeout, is not killed, and
  the tool returns Ok once the command has exited.
\<close>

theorem timeout_does_not_bound_exit:
  "deadline 1 <
     exit_time \<lparr>arrivals = [(0, Stdout, Inr []), (0, Stderr, Inr [])],
                exit_time = 5000, exit_code = 0, cancel_time = None\<rparr>
   \<and> Bash_call utf8_decode ''exec >&- 2>&-; sleep 5'' 1
       (run_of 1 \<lparr>arrivals = [(0, Stdout, Inr []), (0, Stderr, Inr [])],
                 exit_time = 5000, exit_code = 0, cancel_time = None\<rparr>) =
     (Inr (Ok (ToolOk (OutStr []) ''Command executed successfully.'' [])), Exited 0)"
  by (simp add: deadline_def run_of_def streams_ended_def Bash_call_def
        stream_subprocess_def)

text \<open>
  C4. A command that exits with status 0 after writing a line that is not UTF-8 (the byte
  \<open>0xFF\<close> and a newline): \<open>line.decode()\<close> raises in the callback, no handler of the tool
  takes \<open>UnicodeDecodeError\<close>, and the tool raises instead of returning Ok.
\<close>

theorem undecodable_output_raises:
  "Bash_call utf8_decode (''printf '' @ [CHR 0x27, CHR 0x5C] @ ''377'' @ [CHR 0x5C] @ ''n''
                            @ [CHR 0x27]) 60
     \<lparr>reads = [(Stdout, Inr [255, 10]), (Stdout, Inr []), (Stderr, Inr [])],
      ending = Exits 0\<rparr> =
     (Inl UnicodeDecodeError, Running)"
  by (simp add: Bash_call_def stream_subprocess_def stdout_cb_def utf8_decode_def)

text \<open>
  The same happens when \<open>readline()\<close> itself raises, on a line over the limit of the stream
  reader.
\<close>

lemma overlong_line_raises:
  "Bash_call decode ''head -c 70000 /dev/zero'' 60
     \<lparr>reads = [(Stdout, Inl ValueError)], ending = Exits 0\<rparr> =
     (Inl ValueError, Running)"
  by (simp add: Bash_call_def stream_subprocess_def)

text \<open>
  C5. The timeout defaults to 60, in the schema and in the signature, but the declared schema
  of \<open>timeout\<close> has no \<open>maximum\<close>: validation against it accepts a timeout of 301, and of
  any other number, and the body runs with that timeout.
\<close>

theorem timeout_schema_unbounded:
  "(case json_get ''properties'' Bash_parameters of
      Some props \<Rightarrow>
        (case json_get ''timeout'' props of
           Some ts \<Rightarrow>
             json_get ''default'' ts = Some (JNumber 60)
             \<and> json_get ''type'' ts = Some (JString ''number'')
             \<and> json_get ''maximum'' ts = None
         | None \<Rightarrow> False)
    | None \<Rightarrow> False)
   \<and> Bash_default_timeout = 60
   \<and> schema_accepts Bash_parameters
       [(''command'', JString ''sleep 1000''), (''timeout'', JNumber 301)]
   \<and> timeout_argument [(''command'', JString ''sleep 1000''), (''timeout'', JNumber 301)] = 301
   \<and> schema_accepts Bash_parameters [(''command'', JString c), (''timeout'', JNumber t)]"
  by (simp add: Bash_parameters_def Bash_default_timeout_def schema_accepts_def
        property_accepts_def within_bounds_def timeout_argument_def)


section \<open>The result translator\<close>

lemma split_parts_filter:
  "split_parts ps ts ns =
     (ts @ filter is_TextPart ps, ns @ filter (\<lambda>p. \<not> is_TextPart p) ps)"
  by (induction ps arbitrary: ts ns) simp_all

text \<open>
  C6. An Error outcome with a non-empty message translates to exactly one tool-role message:
  the message between the system tags, followed by the raw output as a second text part if
  and only if the output is non-empty.
\<close>

theorem error_path_one_tool_message:
  assumes "err_message e \<noteq> []"
  shows "tool_result_to_messages (ToolResult cid (Error e)) =
           Inr [Message Tool
                  (TextPart (''<system>'' @ err_message e @ ''</system>'')
                     # (if err_output e \<noteq> [] then [TextPart (err_output e)] else []))
                  (Some cid)]"
  using assms by (simp add: tool_result_to_messages_def system_message_def)

theorem error_path_one_tool_message_witness:
  "err_message (ToolError ''partial'' ''Command failed with exit code: 2'' ''Failed'') \<noteq> []
   \<and> tool_result_to_messages
       (ToolResult ''call-1''
          (Error (ToolError ''partial'' ''Command failed with exit code: 2'' ''Failed''))) =
     Inr [Message Tool
            [TextPart ''<system>Command failed with exit code: 2</system>'',
             TextPart ''partial'']
            (Some ''call-1'')]
   \<and> tool_result_to_messages
       (ToolResult ''call-1'' (Error (ToolError [] ''boom'' ''Failed''))) =
     Inr [Message Tool [TextPart ''<system>boom</system>''] (Some ''call-1'')]"
  using error_path_one_tool_message
          [of "ToolError ''partial'' ''Command failed with exit code: 2'' ''Failed''" "''call-1''"]
        error_path_one_tool_message [of "ToolError [] ''boom'' ''Failed''" "''call-1''"]
  by simp



text \<open>
  C8. An Ok outcome with empty output (the empty string or no parts) and no message
  translates to exactly one tool-role message whose only part is the system-tagged sentinel;
  and no tool result at all translates to the empty list of messages.
\<close>

theorem empty_output_sentinel:
  "tool_result_to_messages (ToolResult cid (Ok (ToolOk (OutStr []) [] b))) =
     Inr [Message Tool [TextPart ''<system>Tool output is empty.</system>''] (Some cid)]
   \<and> tool_result_to_messages (ToolResult cid (Ok (ToolOk (OutParts []) [] b))) =
     Inr [Message Tool [TextPart ''<system>Tool output is empty.</system>''] (Some cid)]
   \<and> tool_result_to_messages tr \<noteq> Inr []"
proof -
  have "tool_result_to_messages tr \<noteq> Inr []"
    by (cases tr)
       (auto simp: tool_result_to_messages_def split_parts_filter Let_def
             split: tool_return.splits)
  then show ?thesis
    by (simp add: tool_result_to_messages_def tool_ok_to_message_content_def
          system_message_def)
qed

theorem empty_output_sentinel_witness:
  "tool_result_to_messages (ToolResult ''call-8'' (Ok (ToolOk (OutStr []) [] ''brief''))) =
     Inr [Message Tool [TextPart ''<system>Tool output is empty.</system>''] (Some ''call-8'')]
   \<and> tool_result_to_messages
       (ToolResult ''call-8'' (Ok (ToolOk (OutPart (NonTextPart ''AudioURLPart'' ''a'')) [] [])))
     \<noteq> Inr []"
  using empty_output_sentinel
          [of "''call-8''" "''brief''"
              "ToolResult ''call-8''
                 (Ok (ToolOk (OutPart (NonTextPart ''AudioURLPart'' ''a'')) [] []))"]
  by simp

text \<open>
  C9. The translator is partial on Error outcomes: an Error whose message is empty makes the
  assertion fail, and an exception escapes in no other case, so under the precondition of a
  non-empty message the failing branch is not reached.
\<close>

theorem error_empty_message_asserts:
  "tool_result_to_messages (ToolResult cid (Error (ToolError out [] b))) = Inl AssertionError
   \<and> ((\<exists>x. tool_result_to_messages tr = Inl x) \<longleftrightarrow>
        (\<exists>e. result tr = Error e \<and> err_message e = []))
   \<and> (tool_result_to_messages tr = Inl x \<longrightarrow> x = AssertionError)"
  by (cases tr)
     (auto simp: tool_result_to_messages_def Let_def
           split: tool_return.splits prod.splits)

theorem error_empty_message_asserts_witness:
  "tool_result_to_messages (ToolResult ''call-9'' (Error (ToolError ''out'' [] ''b''))) =
     Inl AssertionError
   \<and> (\<exists>e. result (ToolResult ''call-9'' (Error (ToolError ''out'' [] ''b''))) = Error e
          \<and> err_message e = [])
   \<and> \<not> (\<exists>x. tool_result_to_messages
                 (ToolResult ''call-9'' (Error (ToolError ''out'' ''msg'' ''b''))) = Inl x)"
  using error_empty_message_asserts
          [of "''call-9''" "''out''" "''b''"
              "ToolResult ''call-9'' (Error (ToolError ''out'' [] ''b''))"]
        error_empty_message_asserts
          [of "''call-9''" "''out''" "''b''"
              "ToolResult ''call-9'' (Error (ToolError ''out'' ''msg'' ''b''))"]
  by simp

text \<open>
  C10. Whenever the translator returns, the list is not empty, its first message is a
  tool-role message with the tool call id of the translated tool result, every tool-role
  message of it carries that id, and every message after the first (the trailing one of the
  non-text case) is a user-role message with no tool call id; and it returns for every
  tool result but an Error with an empty message.
\<close>

theorem tool_call_id_preserved:
  "(case tool_result_to_messages tr of
      Inl x \<Rightarrow> (\<exists>e. result tr = Error e \<and> err_message e = [])
    | Inr ms \<Rightarrow>
        ms \<noteq> []
        \<and> role (hd ms) = Tool
        \<and> msg_tool_call_id (hd ms) = Some (tool_call_id tr)
        \<and> (\<forall>m \<in> set ms. role m = Tool \<longrightarrow> msg_tool_call_id m = Some (tool_call_id tr))
        \<and> (\<forall>m \<in> set (tl ms). role m = User \<and> msg_tool_call_id m = None)
        \<and> (length ms = 2 \<longleftrightarrow>
             (\<exists>r. result tr = Ok r
                  \<and> (\<exists>p \<in> set (tool_ok_to_message_content r). \<not> is_TextPart p))))"
proof (cases tr)
  case (ToolResult cid res)
  show ?thesis
  proof (cases res)
    case (Error e)
    with ToolResult show ?thesis
      by (simp add: tool_result_to_messages_def Let_def)
  next
    case (Ok r)
    show ?thesis
    proof (cases "filter (\<lambda>p. \<not> is_TextPart p) (tool_ok_to_message_content r) = []")
      case True
      then have "\<not> (\<exists>p \<in> set (tool_ok_to_message_content r). \<not> is_TextPart p)"
        by (simp add: filter_empty_conv)
      with True Ok ToolResult show ?thesis
        by (simp add: tool_result_to_messages_def split_parts_filter)
    next
      case False
      then have "\<exists>p \<in> set (tool_ok_to_message_content r). \<not> is_TextPart p"
        by (simp add: filter_empty_conv)
      with False Ok ToolResult show ?thesis
        by (simp add: tool_result_to_messages_def split_parts_filter)
    qed
  qed
qed

theorem tool_call_id_preserved_witness:
  "tool_result_to_messages
     (ToolResult ''call-10'' (Ok (ToolOk (OutPart (NonTextPart ''ImageURLPart'' ''i'')) [] []))) =
     Inr [Message Tool [TextPart (''<system>'' @ non_text_notice @ ''</system>'')]
            (Some ''call-10''),
          Message User [NonTextPart ''ImageURLPart'' ''i''] None]
   \<and> role (hd [Message Tool [TextPart (''<system>'' @ non_text_notice @ ''</system>'')]
                  (Some ''call-10''),
                Message User [NonTextPart ''ImageURLPart'' ''i''] None]) = Tool
   \<and> msg_tool_call_id
       (hd [Message Tool [TextPart (''<system>'' @ non_text_notice @ ''</system>'')]
              (Some ''call-10''),
            Message User [NonTextPart ''ImageURLPart'' ''i''] None]) =
     Some (tool_call_id
             (ToolResult ''call-10''
                (Ok (ToolOk (OutPart (NonTextPart ''ImageURLPart'' ''i'')) [] []))))
   \<and> msg_tool_call_id (Message User [NonTextPart ''ImageURLPart'' ''i''] None) = None"
proof -
  let ?tr = "ToolResult ''call-10''
               (Ok (ToolOk (OutPart (NonTextPart ''ImageURLPart'' ''i'')) [] []))"
  have run: "tool_result_to_messages ?tr =
               Inr [Message Tool [TextPart (''<system>'' @ non_text_notice @ ''</system>'')]
                      (Some ''call-10''),
                    Message User [NonTextPart ''ImageURLPart'' ''i''] None]"
    by (simp add: tool_result_to_messages_def tool_ok_to_message_content_def
          system_message_def)
  from tool_call_id_preserved [of ?tr] run show ?thesis
    by simp
qed

end
